theory Spec2Isabelle
  imports Main "HOL-Library.Multiset"
begin

section \<open>Quantum: a time interval in milliseconds\<close>

text \<open>
  The newest copy of the library (the one with \<open>MIN\<close>, \<open>intersects\<close> and
  \<open>toString\<close>) is the code modelled here; the older copy \<open>quantum.js\<close> is
  modelled next to it under names ending in \<open>_legacy\<close>, where the two differ.

  JavaScript numbers are modelled as \<open>int\<close>: the bounds are integral milliseconds,
  and \<open>\<le>\<close>, \<open>\<ge>\<close>, \<open>Math.min\<close>, \<open>Math.max\<close> and \<open>-\<close> are exact on integers
  below \<open>2^53\<close>. \<open>NaN\<close> is a value of its own in \<open>jsval\<close>; fractions, infinities
  and the negative zero are left out.
\<close>

subsection \<open>The constructor and its defaults\<close>

text \<open>
  \<^verbatim>\<open>
  function Quantum( start, stop ) {
      this.start = ( start || 0 );
      this.stop = ( stop || 0 );
  }
  \<close>
  The constructor takes any JavaScript value: an omitted argument is \<open>undefined\<close>.
\<close>

datatype jsval =
    Undefined
  | Null
  | Boolean bool
  | Number int
  | NaN
  | String string
  | Object nat

text \<open>\<open>ToBoolean\<close> of ECMAScript: what \<open>||\<close> tests.\<close>

fun ToBoolean :: "jsval \<Rightarrow> bool" where
  "ToBoolean Undefined = False"
| "ToBoolean Null = False"
| "ToBoolean (Boolean b) = b"
| "ToBoolean (Number n) = (n \<noteq> 0)"
| "ToBoolean NaN = False"
| "ToBoolean (String s) = (s \<noteq> [])"
| "ToBoolean (Object a) = True"

text \<open>\<open>a || b\<close>: the left operand when it is truthy, the right one otherwise.\<close>

definition js_or :: "jsval \<Rightarrow> jsval \<Rightarrow> jsval" where
  "js_or a b = (if ToBoolean a then a else b)"

record raw_quantum =
  raw_start :: jsval
  raw_stop :: jsval

definition Quantum :: "jsval \<Rightarrow> jsval \<Rightarrow> raw_quantum" where
  "Quantum start0 stop0 =
     \<lparr>raw_start = js_or start0 (Number 0), raw_stop = js_or stop0 (Number 0)\<rparr>"

text \<open>
  The collection works on Quanta whose bounds are numbers (\<open>@param {number}\<close>). On
  numbers \<open>x || 0\<close> is \<open>x\<close> when \<open>x\<close> is not zero and \<open>0\<close> otherwise.
\<close>

record quantum =
  start :: int
  stop :: int

definition new_Quantum :: "int \<Rightarrow> int \<Rightarrow> quantum" where
  "new_Quantum a b =
     \<lparr>start = (if a \<noteq> 0 then a else 0), stop = (if b \<noteq> 0 then b else 0)\<rparr>"

text \<open>\<open>Quantum.prototype.millis\<close>: \<open>this.stop - this.start\<close>.\<close>

definition millis :: "quantum \<Rightarrow> int" where
  "millis q = stop q - start q"

section \<open>QuantumSet: comparison, intersection and merging\<close>

text \<open>\<open>QuantumSet.prototype.compare\<close>: \<open>q1.start >= q2.start\<close>, a boolean.\<close>

definition compare :: "quantum \<Rightarrow> quantum \<Rightarrow> bool" where
  "compare q1 q2 = (start q1 \<ge> start q2)"

text \<open>
  \<^verbatim>\<open>
  QuantumSet.prototype.intersects = function( q1, q2 ) {
      var q1a, q1B, q2a, q2B;
      q1a = q1.start; q1B = q1.stop; q2a = q2.start; q2B = q2.stop;
      return ((( q1a <= q2a ) && ( q1B >= q2a )) ||
              (( q2a <= q1a) && ( q2B >= q1a )));
  };
  \<close>
\<close>

definition intersects :: "quantum \<Rightarrow> quantum \<Rightarrow> bool" where
  "intersects q1 q2 =
     (let q1a = start q1; q1B = stop q1; q2a = start q2; q2B = stop q2
      in (q1a \<le> q2a \<and> q1B \<ge> q2a) \<or> (q2a \<le> q1a \<and> q2B \<ge> q1a))"

text \<open>
  \<^verbatim>\<open>
  QuantumSet.prototype.merge = function( q1, q2 ) {
      var a, B, q;
      if ( this.intersects( q1, q2 )) {
          a = MIN( q1.start, q2.start );
          B = MAX( q1.stop, q2.stop );
          q = new Quantum( a, B );
          return [ q ];
      }
      return [ q1, q2 ];
  };
  \<close>
  The array \<open>merge\<close> returns is read once by its caller and dropped: it is a list value.
\<close>

definition merge :: "quantum \<Rightarrow> quantum \<Rightarrow> quantum list" where
  "merge q1 q2 =
     (if intersects q1 q2 then
        (let a = min (start q1) (start q2);
             B = max (stop q1) (stop q2);
             q = new_Quantum a B
         in [q])
      else [q1, q2])"

subsection \<open>The older copy, \<open>quantum.js\<close>\<close>

text \<open>
  \<^verbatim>\<open>
  QuantumSet.prototype.intersect = function( q1, q2 ) {
      ...
      return (( q1a <= q2a ) && ( q1B >= q2a ));
  };
  QuantumSet.prototype.merge = function( q1, q2 ) {
      if ( this.intersect( q1, q2 )) {
          a = q1.start;
          B = max( q1.stop, q2.stop );
          ...
  \<close>
\<close>

definition intersect_legacy :: "quantum \<Rightarrow> quantum \<Rightarrow> bool" where
  "intersect_legacy q1 q2 =
     (let q1a = start q1; q1B = stop q1; q2a = start q2
      in q1a \<le> q2a \<and> q1B \<ge> q2a)"

definition merge_legacy :: "quantum \<Rightarrow> quantum \<Rightarrow> quantum list" where
  "merge_legacy q1 q2 =
     (if intersect_legacy q1 q2 then
        (let a = start q1;
             B = max (stop q1) (stop q2);
             q = new_Quantum a B
         in [q])
      else [q1, q2])"

section \<open>Arrays, references and the host's sort\<close>

text \<open>
  A JavaScript array is an object: \<open>this._set\<close>, the copy \<open>slice\<close> returns and the
  array \<open>disjoint\<close> builds are references, and \<open>sort\<close> and \<open>push\<close> change the array
  they are called on. The store is the list of all arrays of Quanta, a reference is an
  index into it, and a new array goes to the end of the store. The state of a run is the
  store and the field \<open>_set\<close> of the one QuantumSet at hand. The Quanta themselves are
  never written to after construction and are values.
\<close>

type_synonym ref = nat

record state =
  arrays :: "quantum list list"
  this_set :: ref

text \<open>A state is valid when \<open>this._set\<close> refers to an array of the store.\<close>

definition valid :: "state \<Rightarrow> bool" where
  "valid st = (this_set st < length (arrays st))"

definition array_get :: "ref \<Rightarrow> state \<Rightarrow> quantum list" where
  "array_get r st = arrays st ! r"

text \<open>An array literal, and \<open>slice()\<close>: a new array with the given elements.\<close>

definition array_new :: "quantum list \<Rightarrow> state \<Rightarrow> state \<times> ref" where
  "array_new xs st = (st\<lparr>arrays := arrays st @ [xs]\<rparr>, length (arrays st))"

definition array_slice :: "ref \<Rightarrow> state \<Rightarrow> state \<times> ref" where
  "array_slice r st = array_new (array_get r st) st"

text \<open>\<open>push\<close>: the elements are appended to the array the reference names.\<close>

definition array_push :: "ref \<Rightarrow> quantum list \<Rightarrow> state \<Rightarrow> state" where
  "array_push r xs st = st\<lparr>arrays := (arrays st)[r := arrays st ! r @ xs]\<rparr>"

text \<open>
  \<open>Array.prototype.sort\<close> is the host's, not the library's. It sorts the array in
  place and calls the comparator on pairs of elements; ECMAScript reads the result as a
  number (\<open>ToNumber\<close>: \<open>true\<close> is 1, \<open>false\<close> is 0), negative for "first before
  second", positive for "first after second", zero for "equal". When the comparator
  is not consistent in that sense, the standard leaves the resulting order to the
  implementation. The host's algorithm is therefore a parameter \<open>hs\<close> of the model:
  it is given the comparator as a number-valued function and the elements, and returns them
  in their new order.
\<close>

type_synonym 'a comparefn = "'a \<Rightarrow> 'a \<Rightarrow> int"

type_synonym host_sort = "quantum comparefn \<Rightarrow> quantum list \<Rightarrow> quantum list"

text \<open>Sorting in place rearranges the elements of the array: it adds and drops none.\<close>

definition permuting :: "host_sort \<Rightarrow> bool" where
  "permuting hs = (\<forall>cf xs. mset (hs cf xs) = mset xs)"

definition ToNumber :: "bool \<Rightarrow> int" where
  "ToNumber b = (if b then 1 else 0)"

definition array_sort :: "host_sort \<Rightarrow> quantum comparefn \<Rightarrow> ref \<Rightarrow> state \<Rightarrow> state" where
  "array_sort hs cf r st = st\<lparr>arrays := (arrays st)[r := hs cf (arrays st ! r)]\<rparr>"

text \<open>
  Two hosts, for running the model. Both are the textbook insertion sort over the array
  from left to right, \<open>below\<close> being the part already placed, nearest element first.

  The first moves \<open>element\<close> down past \<open>tmp\<close> while \<open>comparefn(tmp, element) > 0\<close>:
  \<^verbatim>\<open>
  for (i = from + 1; i < to; i++) {
      element = a[i];
      for (j = i - 1; j >= from; j--) {
          tmp = a[j];
          order = comparefn(tmp, element);
          if (order > 0) { a[j + 1] = tmp; } else { break; }
      }
      a[j + 1] = element;
  }
  \<close>
  (the insertion sort V8 used on short arrays before version 7.0).
  The second moves \<open>element\<close> down past \<open>tmp\<close> while \<open>comparefn(element, tmp) < 0\<close>,
  the test that the run detection and the binary insertion of V8's TimSort (version 7.0
  and later) make. On a consistent comparator the two tests agree.
\<close>

fun insert_gt0 :: "'a comparefn \<Rightarrow> 'a \<Rightarrow> 'a list \<Rightarrow> 'a list" where
  "insert_gt0 cf element [] = [element]"
| "insert_gt0 cf element (tmp # below) =
     (if cf tmp element > 0 then tmp # insert_gt0 cf element below
      else element # tmp # below)"

definition insertion_sort_gt0 :: "'a comparefn \<Rightarrow> 'a list \<Rightarrow> 'a list" where
  "insertion_sort_gt0 cf xs = rev (foldl (\<lambda>below element. insert_gt0 cf element below) [] xs)"

fun insert_lt0 :: "'a comparefn \<Rightarrow> 'a \<Rightarrow> 'a list \<Rightarrow> 'a list" where
  "insert_lt0 cf element [] = [element]"
| "insert_lt0 cf element (tmp # below) =
     (if cf element tmp < 0 then tmp # insert_lt0 cf element below
      else element # tmp # below)"

definition insertion_sort_lt0 :: "'a comparefn \<Rightarrow> 'a list \<Rightarrow> 'a list" where
  "insertion_sort_lt0 cf xs = rev (foldl (\<lambda>below element. insert_lt0 cf element below) [] xs)"

section \<open>QuantumSet: the collection\<close>

text \<open>
  \<^verbatim>\<open>
  function QuantumSet( args ) {
      this._set = [];
      if ( args ) { this.push( args ); }
  }
  QuantumSet.prototype.push = function( args ) {
      Array.prototype.push.apply( this._set, args );
  };
  \<close>
  The argument array is only read, so it is passed as a list; an omitted argument is
  \<open>None\<close> (every array, also the empty one, is truthy).
\<close>

definition push :: "quantum list \<Rightarrow> state \<Rightarrow> state" where
  "push args st = array_push (this_set st) args st"

definition QuantumSet :: "quantum list option \<Rightarrow> quantum list list \<Rightarrow> state" where
  "QuantumSet args store =
     (let st = \<lparr>arrays = store @ [[]], this_set = length store\<rparr>
      in case args of None \<Rightarrow> st | Some a \<Rightarrow> push a st)"

text \<open>
  \<^verbatim>\<open>
  QuantumSet.prototype.set = function( set ) {
      if ( set ) { this._set = set; }
      return this._set;
  };
  \<close>
\<close>

definition set_op :: "ref option \<Rightarrow> state \<Rightarrow> state \<times> ref" where
  "set_op s st =
     (case s of Some r \<Rightarrow> (st\<lparr>this_set := r\<rparr>, r) | None \<Rightarrow> (st, this_set st))"

text \<open>
  \<^verbatim>\<open>
  QuantumSet.prototype.monotonic = function( compare ) {
      var set = this._set.slice();
      set.sort(( compare || this.compare ));
      return set;
  };
  \<close>
  A comparator passed by the caller enters as the number the host reads from its result;
  the default is \<open>this.compare\<close>, whose boolean the host reads through \<open>ToNumber\<close>.
\<close>

definition monotonic :: "host_sort \<Rightarrow> quantum comparefn option \<Rightarrow> state \<Rightarrow> state \<times> ref" where
  "monotonic hs cmp st =
     (let (st1, s) = array_slice (this_set st) st;
          cf = (case cmp of Some f \<Rightarrow> f | None \<Rightarrow> (\<lambda>q1 q2. ToNumber (compare q1 q2)));
          st2 = array_sort hs cf s st1
      in (st2, s))"

text \<open>
  The older copy sorts the backing array itself:
  \<^verbatim>\<open>
  QuantumSet.prototype.monotonic = function( compare ) {
      return this._set.sort(( compare || this.compare ));
  };
  \<close>
\<close>

definition monotonic_legacy :: "host_sort \<Rightarrow> quantum comparefn option \<Rightarrow> state \<Rightarrow> state \<times> ref" where
  "monotonic_legacy hs cmp st =
     (let cf = (case cmp of Some f \<Rightarrow> f | None \<Rightarrow> (\<lambda>q1 q2. ToNumber (compare q1 q2)));
          st1 = array_sort hs cf (this_set st) st
      in (st1, this_set st))"

text \<open>
  \<^verbatim>\<open>
  QuantumSet.prototype.disjoint = function( mono ) {
      var set, $set, _set, q, i, k, n;
      set = (( !mono ) ?  this.monotonic() : this._set );
      _set = [];
      q = set[ 0 ];
      k = set.length;
      for ( i = 1; i < k; ++ i ) {
          $set = this.merge( q, set[ i ] );
          n = $set.length - 1;
          if ( n ) { _set.push( $set[ 0 ] ); }
          q = $set[ n ];
      }
      _set.push( q );
      return _set;
  };
  \<close>
  The loop reads \<open>set[i]\<close> from the store and pushes to \<open>_set\<close> in the store; \<open>s\<close> is
  the reference \<open>set\<close>, \<open>out\<close> the reference \<open>_set\<close> and \<open>m\<close> the array \<open>$set\<close>.
\<close>

function disjoint_loop :: "ref \<Rightarrow> ref \<Rightarrow> nat \<Rightarrow> nat \<Rightarrow> quantum \<Rightarrow> state \<Rightarrow> state \<times> quantum" where
  "disjoint_loop s out i k q st =
     (if i < k then
        (let m = merge q (array_get s st ! i);
             n = length m - 1;
             st' = (if n \<noteq> 0 then array_push out [m ! 0] st else st);
             q' = m ! n
         in disjoint_loop s out (Suc i) k q' st')
      else (st, q))"
  by pat_completeness auto
termination
  by (relation "measure (\<lambda>(s, out, i, k, q, st). k - i)") auto

text \<open>
  On an empty array \<open>set[0]\<close> is \<open>undefined\<close>, the loop does not run, and the result is
  the array \<open>[undefined]\<close>, which is not an array of Quanta: \<open>Undefined_only\<close> stands for
  it. The parameter \<open>mono\<close> is \<open>mono_flag\<close>; omitted it is \<open>undefined\<close>, that is \<open>False\<close>.
\<close>

datatype cover = Undefined_only | Cover ref

definition disjoint :: "host_sort \<Rightarrow> bool \<Rightarrow> state \<Rightarrow> state \<times> cover" where
  "disjoint hs mono_flag st =
     (let (st1, s) = (if \<not> mono_flag then monotonic hs None st else (st, this_set st));
          (st2, out) = array_new [] st1
      in (case array_get s st2 of
            [] \<Rightarrow> (st2, Undefined_only)
          | q0 # rest \<Rightarrow>
              (let k = length (array_get s st2);
                   (st3, q) = disjoint_loop s out 1 k q0 st2
               in (array_push out [q] st3, Cover out))))"

text \<open>
  \<^verbatim>\<open>
  QuantumSet.prototype.millis = function() {
      ...
      millis = 0;
      k = s.length;
      for ( i = 0; i < k; ++ i ) { millis += s[ i ].millis(); }
      return millis;
  };
  \<close>
\<close>

definition millis_set :: "state \<Rightarrow> int" where
  "millis_set st = foldl (\<lambda>ms q. ms + millis q) 0 (array_get (this_set st) st)"

subsection \<open>The collection of the self-test\<close>

text \<open>
  \<^verbatim>\<open>
  set = new Q.QuantumSet([
      new Q.Quantum( 123, 321 ),
      new Q.Quantum( 2342933, 82888329 ),
      new Q.Quantum( 2322, 23421 ),
      new Q.Quantum( 3232123423, 238232482738 ),
      new Q.Quantum( 2, 12342 )
  ]);
  \<close>
\<close>

definition reset_elements :: "quantum list" where
  "reset_elements =
     [new_Quantum 123 321,
      new_Quantum 2342933 82888329,
      new_Quantum 2322 23421,
      new_Quantum 3232123423 238232482738,
      new_Quantum 2 12342]"

definition reset :: state where
  "reset = QuantumSet (Some reset_elements) []"

section \<open>Orderings and the sweep as a function of lists\<close>

text \<open>Ordered non-decreasing by start: every element's start is at most the next one's.\<close>

definition ordered_by_start :: "quantum list \<Rightarrow> bool" where
  "ordered_by_start xs = successively (\<lambda>a b. start a \<le> start b) xs"

text \<open>No two consecutive elements intersect.\<close>

definition adjacent_disjoint :: "quantum list \<Rightarrow> bool" where
  "adjacent_disjoint xs = successively (\<lambda>a b. \<not> intersects a b) xs"

text \<open>A Quantum is well formed when its start is not after its stop.\<close>

definition well_formed :: "quantum \<Rightarrow> bool" where
  "well_formed q = (start q \<le> stop q)"

text \<open>
  What the loop of \<open>disjoint\<close> adds to \<open>_set\<close>, its last push included, from the
  accumulator \<open>q\<close> and the elements still to be read.
\<close>

fun sweep :: "quantum \<Rightarrow> quantum list \<Rightarrow> quantum list" where
  "sweep q [] = [q]"
| "sweep q (e # es) =
     (let m = merge q e; n = length m - 1
      in (if n \<noteq> 0 then [m ! 0] else []) @ sweep (m ! n) es)"

section \<open>Properties of the constructor, of intersects and of merge\<close>

lemma new_Quantum_fields [simp]:
  "start (new_Quantum a b) = a" "stop (new_Quantum a b) = b"
  by (simp_all add: new_Quantum_def)

lemma new_Quantum_eq: "new_Quantum a b = \<lparr>start = a, stop = b\<rparr>"
  by (simp add: new_Quantum_def)

text \<open>On two numbers the constructor builds what \<open>new_Quantum\<close> builds.\<close>

lemma Quantum_on_numbers:
  "Quantum (Number a) (Number b) =
     \<lparr>raw_start = Number (start (new_Quantum a b)), raw_stop = Number (stop (new_Quantum a b))\<rparr>"
  by (simp add: Quantum_def js_or_def)

text \<open>
  C4. \<open>intersects\<close> is symmetric: for all Quanta \<open>a\<close> and \<open>b\<close>, \<open>intersects(a, b)\<close> and
  \<open>intersects(b, a)\<close> are the same boolean.
\<close>

theorem intersects_symmetric: "intersects a b = intersects b a"
  by (auto simp: intersects_def Let_def)

text \<open>
  The older \<open>intersect\<close> of \<open>quantum.js\<close> looks at the first argument's span only
  and is not symmetric.
\<close>

lemma intersect_legacy_not_symmetric:
  "intersect_legacy \<lparr>start = 1, stop = 5\<rparr> \<lparr>start = 3, stop = 4\<rparr> \<and>
   \<not> intersect_legacy \<lparr>start = 3, stop = 4\<rparr> \<lparr>start = 1, stop = 5\<rparr>"
  by (simp add: intersect_legacy_def)

text \<open>
  C5, as stated, fails in its remark on touching endpoints: for every pair it lets
  \<open>a.stop = b.start\<close> count as intersecting, and a Quantum with \<open>start > stop\<close> is
  accepted unvalidated. With \<open>a = [5, 3]\<close> and \<open>b = [3, 4]\<close> the stop of \<open>a\<close> is the
  start of \<open>b\<close>, and \<open>intersects(a, b)\<close> is false.
\<close>

theorem intersects_touching_malformed:
  "stop \<lparr>start = 5, stop = 3\<rparr> = start \<lparr>start = 3, stop = 4\<rparr> \<and>
   \<not> intersects \<lparr>start = 5, stop = 3\<rparr> \<lparr>start = 3, stop = 4\<rparr>"
  by (simp add: intersects_def)

text \<open>
  C5, amended. \<open>intersects(a, b)\<close> is true exactly when one start lies in the closed
  span of the other Quantum: \<open>(a.start \<le> b.start \<and> a.stop \<ge> b.start) \<or>
  (b.start \<le> a.start \<and> b.stop \<ge> a.start)\<close>. Touching endpoints
  (\<open>a.stop = b.start\<close>) intersect when \<open>a.start \<le> a.stop\<close>, and a Quantum with
  \<open>start = stop\<close> is treated by the same formula: it intersects \<open>b\<close> exactly when its
  instant is \<open>b.start\<close> or lies in the span of \<open>b\<close>.
\<close>

theorem intersects_closed_span:
  "(intersects a b \<longleftrightarrow>
      (start a \<le> start b \<and> stop a \<ge> start b) \<or> (start b \<le> start a \<and> stop b \<ge> start a)) \<and>
   (start a \<le> stop a \<and> stop a = start b \<longrightarrow> intersects a b) \<and>
   (start a = stop a \<longrightarrow>
      (intersects a b \<longleftrightarrow> start a = start b \<or> (start b \<le> start a \<and> start a \<le> stop b)))"
  by (auto simp: intersects_def Let_def)

theorem intersects_closed_span_witness:
  "intersects \<lparr>start = 4, stop = 4\<rparr> \<lparr>start = 4, stop = 9\<rparr> \<and>
   (4::int) \<le> 4 \<and> stop \<lparr>start = 4, stop = 4\<rparr> = start \<lparr>start = 4, stop = 9\<rparr>"
  using intersects_closed_span [of "\<lparr>start = 4, stop = 4\<rparr>" "\<lparr>start = 4, stop = 9\<rparr>"]
  by simp

text \<open>
  C1. \<open>merge(a, b)\<close> returns the one-element sequence holding a new Quantum with
  \<open>start = min(a.start, b.start)\<close> and \<open>stop = max(a.stop, b.stop)\<close> when
  \<open>intersects(a, b)\<close>, and the two-element sequence \<open>[a, b]\<close>, unchanged and in the given
  order, otherwise; so it returns one element exactly when the two intersect. The
  minimum of the starts is taken also when \<open>a.start > b.start\<close>.
\<close>

theorem merge_correct:
  "merge a b =
     (if intersects a b
      then [\<lparr>start = min (start a) (start b), stop = max (stop a) (stop b)\<rparr>]
      else [a, b]) \<and>
   (length (merge a b) = 1 \<longleftrightarrow> intersects a b)"
  by (simp add: merge_def Let_def new_Quantum_eq)

theorem merge_correct_witness:
  "intersects \<lparr>start = 543, stop = 2345\<rparr> \<lparr>start = 123, stop = 6789\<rparr> \<and>
   merge \<lparr>start = 543, stop = 2345\<rparr> \<lparr>start = 123, stop = 6789\<rparr> = [\<lparr>start = 123, stop = 6789\<rparr>] \<and>
   \<not> intersects \<lparr>start = 234, stop = 432\<rparr> \<lparr>start = 543, stop = 2345\<rparr> \<and>
   merge \<lparr>start = 234, stop = 432\<rparr> \<lparr>start = 543, stop = 2345\<rparr> =
     [\<lparr>start = 234, stop = 432\<rparr>, \<lparr>start = 543, stop = 2345\<rparr>]"
  using merge_correct [of "\<lparr>start = 543, stop = 2345\<rparr>" "\<lparr>start = 123, stop = 6789\<rparr>"]
        merge_correct [of "\<lparr>start = 234, stop = 432\<rparr>" "\<lparr>start = 543, stop = 2345\<rparr>"]
  by (simp add: intersects_def)

text \<open>
  The older \<open>merge\<close> of \<open>quantum.js\<close> takes \<open>q1.start\<close>; with its one-sided
  \<open>intersect\<close> that is the minimum of the two starts whenever it merges.
\<close>

lemma merge_legacy_correct:
  "merge_legacy a b =
     (if intersect_legacy a b
      then [\<lparr>start = min (start a) (start b), stop = max (stop a) (stop b)\<rparr>]
      else [a, b])"
  by (simp add: merge_legacy_def intersect_legacy_def Let_def new_Quantum_eq min_def)

section \<open>The loop of disjoint computes the sweep\<close>

text \<open>
  The loop unfolds one iteration at a time; its recursive equation is applied by hand.
\<close>

declare disjoint_loop.simps [simp del]

lemma sweep_not_empty: "sweep q es \<noteq> []"
  by (induction es arbitrary: q) (auto simp: Let_def)

lemma sweep_Cons:
  "sweep q (e # es) =
     (if intersects q e
      then sweep \<lparr>start = min (start q) (start e), stop = max (stop q) (stop e)\<rparr> es
      else q # sweep e es)"
  by (simp add: merge_def Let_def new_Quantum_eq)

lemma array_push_this_set [simp]: "this_set (array_push r xs st) = this_set st"
  by (simp add: array_push_def)

lemma disjoint_loop_step:
  "i < k \<Longrightarrow>
   disjoint_loop s out i k q st =
     disjoint_loop s out (Suc i) k
       (merge q (arrays st ! s ! i) ! (length (merge q (arrays st ! s ! i)) - 1))
       (if length (merge q (arrays st ! s ! i)) - 1 \<noteq> 0
        then array_push out [merge q (arrays st ! s ! i) ! 0] st else st)"
  by (subst disjoint_loop.simps) (simp only: Let_def array_get_def if_True)

lemma disjoint_loop_stop: "\<not> i < k \<Longrightarrow> disjoint_loop s out i k q st = (st, q)"
  by (subst disjoint_loop.simps) (simp only: if_False)

lemma disjoint_loop_this_set:
  "this_set (fst (disjoint_loop s out i k q st)) = this_set st"
proof (induction s out i k q st rule: disjoint_loop.induct)
  case (1 s out i k q st)
  show ?case
  proof (cases "i < k")
    case True
    have "this_set (fst (disjoint_loop s out i k q st)) =
          this_set (if length (merge q (arrays st ! s ! i)) - 1 \<noteq> 0
              then array_push out [merge q (arrays st ! s ! i) ! 0] st else st)"
      unfolding disjoint_loop_step [OF True]
      using "1.IH" [OF True refl refl refl refl]
      by (simp only: array_get_def)
    then show ?thesis by (simp split: if_splits)
  next
    case False
    then show ?thesis by (simp add: disjoint_loop_stop)
  qed
qed


lemma disjoint_loop_sweep:
  assumes "s < length (arrays st)" "out < length (arrays st)" "s \<noteq> out"
    and "k = length (arrays st ! s)"
  shows "arrays (array_push out [snd (disjoint_loop s out i k q st)] (fst (disjoint_loop s out i k q st))) =
         (arrays st)[out := arrays st ! out @ sweep q (drop i (arrays st ! s))]"
  using assms
proof (induction s out i k q st rule: disjoint_loop.induct)
  case (1 s out i k q st)
  show ?case
  proof (cases "i < k")
    case False
    with "1.prems" show ?thesis
      by (simp add: disjoint_loop_stop array_push_def)
  next
    case True
    define e where "e = arrays st ! s ! i"
    define m where "m = merge q e"
    define n where "n = length m - 1"
    define emitted where "emitted = (if n \<noteq> 0 then [m ! 0] else [])"
    define st' where "st' = (if n \<noteq> 0 then array_push out [m ! 0] st else st)"
    have step: "disjoint_loop s out i k q st = disjoint_loop s out (Suc i) k (m ! n) st'"
      unfolding disjoint_loop_step [OF True] e_def m_def n_def st'_def ..
    have upd: "arrays st' = (arrays st)[out := arrays st ! out @ emitted]"
      using "1.prems" by (simp add: st'_def emitted_def array_push_def)
    have len: "length (arrays st') = length (arrays st)"
      by (simp add: upd)
    have same: "arrays st' ! s = arrays st ! s"
      using "1.prems" by (simp add: upd)
    have outv: "arrays st' ! out = arrays st ! out @ emitted"
      using "1.prems" by (simp add: upd)
    have IH: "arrays (array_push out [snd (disjoint_loop s out (Suc i) k (m ! n) st')]
                 (fst (disjoint_loop s out (Suc i) k (m ! n) st'))) =
              (arrays st')[out := arrays st' ! out @ sweep (m ! n) (drop (Suc i) (arrays st' ! s))]"
    proof (rule "1.IH" [OF True])
      show "m = merge q (array_get s st ! i)" by (simp add: m_def e_def array_get_def)
      show "n = length m - 1" by (simp add: n_def)
      show "st' = (if n \<noteq> 0 then array_push out [m ! 0] st else st)" by (simp add: st'_def)
      show "m ! n = m ! n" ..
      show "s < length (arrays st')" using "1.prems" by (simp add: len)
      show "out < length (arrays st')" using "1.prems" by (simp add: len)
      show "s \<noteq> out" using "1.prems" by simp
      show "k = length (arrays st' ! s)" using "1.prems" by (simp add: same)
    qed
    have dr: "drop i (arrays st ! s) = e # drop (Suc i) (arrays st ! s)"
      using True "1.prems" by (simp add: e_def Cons_nth_drop_Suc)
    have sw: "sweep q (e # drop (Suc i) (arrays st ! s)) = emitted @ sweep (m ! n) (drop (Suc i) (arrays st ! s))"
      by (simp add: Let_def m_def n_def emitted_def)
    have "arrays (array_push out [snd (disjoint_loop s out i k q st)] (fst (disjoint_loop s out i k q st))) =
          (arrays st')[out := (arrays st ! out @ emitted) @ sweep (m ! n) (drop (Suc i) (arrays st ! s))]"
      unfolding step IH by (simp only: outv same)
    also have "\<dots> = (arrays st)[out := arrays st ! out @ (emitted @ sweep (m ! n) (drop (Suc i) (arrays st ! s)))]"
      by (simp only: upd list_update_overwrite append_assoc)
    also have "\<dots> = (arrays st)[out := arrays st ! out @ sweep q (drop i (arrays st ! s))]"
      by (simp only: dr sw)
    finally show ?thesis .
  qed
qed

lemma monotonic_eq:
  "monotonic hs cmp st =
     (st\<lparr>arrays := arrays st @
          [hs (case cmp of Some f \<Rightarrow> f | None \<Rightarrow> (\<lambda>q1 q2. ToNumber (compare q1 q2)))
              (arrays st ! this_set st)]\<rparr>,
      length (arrays st))"
  by (simp add: monotonic_def array_slice_def array_new_def array_get_def array_sort_def Let_def)

lemma disjoint_read:
  assumes "s < length (arrays st)" "arrays st ! s = q0 # rest"
  shows "(let (st2, out) = array_new [] st
          in (case array_get s st2 of
                [] \<Rightarrow> (st2, Undefined_only)
              | q0 # rest \<Rightarrow>
                  (let k = length (array_get s st2);
                       (st3, q) = disjoint_loop s out 1 k q0 st2
                   in (array_push out [q] st3, Cover out)))) =
         (st\<lparr>arrays := arrays st @ [sweep q0 rest]\<rparr>, Cover (length (arrays st)))"
proof -
  define st2 where "st2 = st\<lparr>arrays := arrays st @ [[]]\<rparr>"
  define out where "out = length (arrays st)"
  define k where "k = length (arrays st2 ! s)"
  define L where "L = disjoint_loop s out 1 k q0 st2"
  have s2: "arrays st2 ! s = q0 # rest"
    using assms by (simp add: st2_def nth_append)
  have "arrays (array_push out [snd L] (fst L)) =
        (arrays st2)[out := arrays st2 ! out @ sweep q0 (drop 1 (arrays st2 ! s))]"
    unfolding L_def using assms by (intro disjoint_loop_sweep) (simp_all add: st2_def out_def k_def)
  also have "\<dots> = arrays st @ [sweep q0 rest]"
    by (simp add: s2) (simp add: st2_def out_def)
  finally have arr: "arrays (array_push out [snd L] (fst L)) = arrays st @ [sweep q0 rest]" .
  have ts: "this_set (fst L) = this_set st"
    unfolding L_def by (simp add: disjoint_loop_this_set st2_def)
  have final: "array_push out [snd L] (fst L) = st\<lparr>arrays := arrays st @ [sweep q0 rest]\<rparr>"
    by (rule state.equality) (simp_all add: arr ts)
  have "(let (st2, out) = array_new [] st
          in (case array_get s st2 of
                [] \<Rightarrow> (st2, Undefined_only)
              | q0 # rest \<Rightarrow>
                  (let k = length (array_get s st2);
                       (st3, q) = disjoint_loop s out 1 k q0 st2
                   in (array_push out [q] st3, Cover out)))) =
        (array_push out [snd L] (fst L), Cover out)"
    unfolding L_def k_def out_def st2_def array_new_def array_get_def
    using s2 [unfolded st2_def]
    by (simp only: Let_def split_beta fst_conv snd_conv list.case)
  also have "\<dots> = (st\<lparr>arrays := arrays st @ [sweep q0 rest]\<rparr>, Cover (length (arrays st)))"
    by (simp only: final [unfolded out_def] out_def)
  finally show ?thesis .
qed


lemma disjoint_True_eq:
  assumes "valid st" "array_get (this_set st) st = q0 # rest"
  shows "disjoint hs True st =
           (st\<lparr>arrays := arrays st @ [sweep q0 rest]\<rparr>, Cover (length (arrays st)))"
proof -
  have "this_set st < length (arrays st)" "arrays st ! this_set st = q0 # rest"
    using assms by (simp_all add: valid_def array_get_def)
  from disjoint_read [OF this] show ?thesis
    by (simp add: disjoint_def)
qed

lemma disjoint_False_eq:
  assumes "hs (\<lambda>a b. ToNumber (compare a b)) (array_get (this_set st) st) = q0 # rest"
  shows "disjoint hs False st =
           (st\<lparr>arrays := arrays st @ [q0 # rest, sweep q0 rest]\<rparr>, Cover (Suc (length (arrays st))))"
proof -
  define st1 where "st1 = st\<lparr>arrays := arrays st @ [q0 # rest]\<rparr>"
  have m: "monotonic hs None st = (st1, length (arrays st))"
    using assms by (simp add: monotonic_eq st1_def array_get_def)
  have "length (arrays st) < length (arrays st1)" "arrays st1 ! length (arrays st) = q0 # rest"
    by (simp_all add: st1_def)
  from disjoint_read [OF this] show ?thesis
    by (simp add: disjoint_def m) (simp add: st1_def)
qed

lemma disjoint_empty:
  "array_get (this_set st) st = [] \<Longrightarrow> valid st \<Longrightarrow> snd (disjoint hs True st) = Undefined_only"
  by (simp add: disjoint_def array_new_def array_get_def valid_def nth_append)

section \<open>The sweep on ordered and on disjoint sequences\<close>

declare sweep.simps(2) [simp del]

lemma ordered_by_start_simps [simp]:
  "ordered_by_start []" "ordered_by_start [a]"
  "ordered_by_start (a # b # xs) = (start a \<le> start b \<and> ordered_by_start (b # xs))"
  by (simp_all add: ordered_by_start_def)

lemma adjacent_disjoint_simps [simp]:
  "adjacent_disjoint []" "adjacent_disjoint [a]"
  "adjacent_disjoint (a # b # xs) = (\<not> intersects a b \<and> adjacent_disjoint (b # xs))"
  by (simp_all add: adjacent_disjoint_def)


lemma sweep_adjacent_disjoint: "adjacent_disjoint (q # es) \<Longrightarrow> sweep q es = q # es"
  by (induction es arbitrary: q) (simp_all add: sweep_Cons)





section \<open>The comparator and the two hosts\<close>

text \<open>
  As a number the result of \<open>compare\<close> is 1 or 0: it is never negative, and it is 1
  on equal starts, also for a Quantum compared with itself. It is not a consistent
  comparison function in the sense of ECMAScript (which would give 0 for \<open>compare(a, a)\<close>
  and a negative number for \<open>compare(a, b)\<close> whenever \<open>compare(b, a)\<close> is positive).
\<close>

lemma compare_number_nonneg: "0 \<le> ToNumber (compare a b)"
  by (simp add: ToNumber_def)

lemma compare_number_self: "ToNumber (compare a a) = 1"
  by (simp add: ToNumber_def compare_def)

text \<open>
  Where a positive \<open>comparefn(a, b)\<close> goes with a negative \<open>comparefn(b, a)\<close>, as
  ECMAScript asks of a comparator, the two hosts return the same order. \<open>compare\<close> is
  not such a comparator, and on it they differ.
\<close>

lemma insert_hosts_agree:
  "\<forall>a b. (0 < cf a b) = (cf b a < 0) \<Longrightarrow> insert_gt0 cf e below = insert_lt0 cf e below"
  by (induction below) simp_all

lemma insertion_sort_hosts_agree:
  assumes "\<forall>a b. (0 < cf a b) = (cf b a < 0)"
  shows "insertion_sort_gt0 cf xs = insertion_sort_lt0 cf xs"
proof -
  have "foldl (\<lambda>below element. insert_gt0 cf element below) acc xs =
        foldl (\<lambda>below element. insert_lt0 cf element below) acc xs" for acc
    by (induction xs arbitrary: acc) (simp_all add: insert_hosts_agree [OF assms])
  then show ?thesis
    by (simp add: insertion_sort_gt0_def insertion_sort_lt0_def)
qed

lemma compare_not_consistent:
  "\<not> (\<forall>a b. (0 < ToNumber (compare a b)) = (ToNumber (compare b a) < 0))"
proof
  assume "\<forall>a b. (0 < ToNumber (compare a b)) = (ToNumber (compare b a) < 0)"
  then have "(0 < ToNumber (compare \<lparr>start = 0, stop = 0\<rparr> \<lparr>start = 0, stop = 0\<rparr>)) =
             (ToNumber (compare \<lparr>start = 0, stop = 0\<rparr> \<lparr>start = 0, stop = 0\<rparr>) < 0)"
    by blast
  then show False by (simp add: ToNumber_def compare_def)
qed

text \<open>
  The host that reorders on a negative result finds nothing to move when no result is
  negative; the host that reorders on a positive result orders by start.
\<close>

lemma insert_lt0_nonneg: "\<forall>a b. 0 \<le> cf a b \<Longrightarrow> insert_lt0 cf e below = e # below"
proof (cases below)
  case Nil
  then show ?thesis by simp
next
  case (Cons tmp rest)
  assume "\<forall>a b. 0 \<le> cf a b"
  then have "\<not> cf e tmp < 0" by (simp add: not_less)
  with Cons show ?thesis by simp
qed

lemma foldl_insert_lt0_nonneg:
  "\<forall>a b. 0 \<le> cf a b \<Longrightarrow>
   foldl (\<lambda>below element. insert_lt0 cf element below) acc xs = rev xs @ acc"
  by (induction xs arbitrary: acc) (simp_all add: insert_lt0_nonneg)

lemma insertion_sort_lt0_nonneg:
  "\<forall>a b. 0 \<le> cf a b \<Longrightarrow> insertion_sort_lt0 cf xs = xs"
  by (simp add: insertion_sort_lt0_def foldl_insert_lt0_nonneg)

lemma insertion_sort_lt0_compare:
  "insertion_sort_lt0 (\<lambda>a b. ToNumber (compare a b)) xs = xs"
  by (rule insertion_sort_lt0_nonneg) (simp add: compare_number_nonneg)

lemma mset_insert_lt0: "mset (insert_lt0 cf e below) = add_mset e (mset below)"
  by (induction below) auto

lemma mset_insert_gt0: "mset (insert_gt0 cf e below) = add_mset e (mset below)"
  by (induction below) auto

lemma mset_foldl_insert_lt0:
  "mset (foldl (\<lambda>below element. insert_lt0 cf element below) acc xs) = mset xs + mset acc"
  by (induction xs arbitrary: acc) (simp_all add: mset_insert_lt0)

lemma mset_foldl_insert_gt0:
  "mset (foldl (\<lambda>below element. insert_gt0 cf element below) acc xs) = mset xs + mset acc"
  by (induction xs arbitrary: acc) (simp_all add: mset_insert_gt0)

lemma permuting_lt0: "permuting insertion_sort_lt0"
  by (simp add: permuting_def insertion_sort_lt0_def mset_foldl_insert_lt0)

lemma permuting_gt0: "permuting insertion_sort_gt0"
  by (simp add: permuting_def insertion_sort_gt0_def mset_foldl_insert_gt0)

lemma set_insert_gt0: "set (insert_gt0 cf e below) = insert e (set below)"
  by (metis mset_insert_gt0 set_mset_add_mset_insert set_mset_mset)

lemma descending_insert_gt0:
  "sorted_wrt (\<lambda>a b. start b \<le> start a) below \<Longrightarrow>
   sorted_wrt (\<lambda>a b. start b \<le> start a) (insert_gt0 (\<lambda>a b. ToNumber (compare a b)) e below)"
  by (induction below) (auto simp: set_insert_gt0 ToNumber_def compare_def split: if_splits)

lemma descending_foldl_insert_gt0:
  "sorted_wrt (\<lambda>a b. start b \<le> start a) acc \<Longrightarrow>
   sorted_wrt (\<lambda>a b. start b \<le> start a)
     (foldl (\<lambda>below element. insert_gt0 (\<lambda>a b. ToNumber (compare a b)) element below) acc xs)"
  by (induction xs arbitrary: acc) (simp_all add: descending_insert_gt0)

lemma insertion_sort_gt0_ordered:
  "ordered_by_start (insertion_sort_gt0 (\<lambda>a b. ToNumber (compare a b)) xs)"
proof -
  have "sorted_wrt (\<lambda>a b. start a \<le> start b) (insertion_sort_gt0 (\<lambda>a b. ToNumber (compare a b)) xs)"
    unfolding insertion_sort_gt0_def sorted_wrt_rev
    by (rule descending_foldl_insert_gt0) simp
  then show ?thesis
    unfolding ordered_by_start_def by (rule successively_if_sorted_wrt)
qed

section \<open>The collection of the self-test, evaluated\<close>

lemma reset_eval: "reset = \<lparr>arrays = [reset_elements], this_set = 0\<rparr>"
  by (simp add: reset_def QuantumSet_def push_def array_push_def)

lemma valid_reset: "valid reset"
  by (simp add: reset_eval valid_def)

lemma reset_fields:
  "this_set reset = 0" "arrays reset = [reset_elements]"
  "array_get (this_set reset) reset = reset_elements" "array_get 0 reset = reset_elements"
  by (simp_all add: reset_eval array_get_def)

lemma reset_elements_not_empty: "reset_elements \<noteq> []"
  by (simp add: reset_elements_def)

lemma reset_not_ordered: "\<not> ordered_by_start reset_elements"
  by (simp add: reset_elements_def)

lemma sweep_reset_unsorted: "sweep (new_Quantum 123 321) (tl reset_elements) = reset_elements"
  by (simp add: reset_elements_def sweep_Cons intersects_def)

lemma insertion_sort_gt0_reset:
  "insertion_sort_gt0 (\<lambda>a b. ToNumber (compare a b)) reset_elements =
     [new_Quantum 2 12342, new_Quantum 123 321, new_Quantum 2322 23421,
      new_Quantum 2342933 82888329, new_Quantum 3232123423 238232482738]"
  by (simp add: insertion_sort_gt0_def reset_elements_def ToNumber_def compare_def)

lemma sweep_reset_sorted:
  "sweep (new_Quantum 2 12342)
     [new_Quantum 123 321, new_Quantum 2322 23421,
      new_Quantum 2342933 82888329, new_Quantum 3232123423 238232482738] =
     [new_Quantum 2 23421, new_Quantum 2342933 82888329, new_Quantum 3232123423 238232482738]"
  by (simp add: sweep_Cons intersects_def new_Quantum_eq)

section \<open>Sorting: monotonic\<close>

text \<open>
  C7. The claim: for every collection, the sequence \<open>monotonic()\<close> returns with the
  default comparator is ordered non-decreasing by start. \<open>monotonic\<close> hands the boolean
  \<open>compare\<close> to the host's sort, whose order is then the host's choice. On the host
  that reorders on a negative comparator result only, the collection of the self-test
  comes back in the order it was inserted, starts 123, 2342933, 2322, 3232123423, 2:
  not ordered by start.
\<close>

theorem monotonic_reset_on_lt0_host:
  "monotonic insertion_sort_lt0 None reset =
     (\<lparr>arrays = [reset_elements, reset_elements], this_set = 0\<rparr>, 1) \<and>
   map start (array_get 1 (fst (monotonic insertion_sort_lt0 None reset))) =
     [123, 2342933, 2322, 3232123423, 2] \<and>
   \<not> ordered_by_start (array_get 1 (fst (monotonic insertion_sort_lt0 None reset)))"
  by (simp add: monotonic_eq reset_eval insertion_sort_lt0_compare array_get_def reset_not_ordered)
     (simp add: reset_elements_def)

text \<open>
  On that host \<open>monotonic()\<close> returns a copy in the backing order for every collection,
  and on the host that reorders on a positive result it returns the elements ordered by
  start for every collection.
\<close>

lemma monotonic_on_lt0_host:
  "monotonic insertion_sort_lt0 None st =
     (st\<lparr>arrays := arrays st @ [array_get (this_set st) st]\<rparr>, length (arrays st))"
  by (simp add: monotonic_eq insertion_sort_lt0_compare array_get_def)

lemma monotonic_on_gt0_host:
  "ordered_by_start
     (array_get (snd (monotonic insertion_sort_gt0 None st)) (fst (monotonic insertion_sort_gt0 None st)))"
  by (simp add: monotonic_eq array_get_def insertion_sort_gt0_ordered)

text \<open>
  C8. \<open>monotonic\<close> returns a new sequence and does not write to the backing sequence:
  for every host sort and every comparator, in a valid state, the reference returned is
  new (it is not \<open>this._set\<close> and names no array of the store before the call), every
  array of the store before the call is unchanged, \<open>this._set\<close> is the same reference
  and reads the same Quanta in the same order, and the new array holds what the host's
  sort made of a copy of the backing sequence.
\<close>

theorem monotonic_frame:
  assumes "valid st" and "monotonic hs cmp st = (st', r)"
  shows "this_set st' = this_set st \<and>
         array_get (this_set st') st' = array_get (this_set st) st \<and>
         take (length (arrays st)) (arrays st') = arrays st \<and>
         r = length (arrays st) \<and> r \<noteq> this_set st \<and>
         array_get r st' =
           hs (case cmp of Some f \<Rightarrow> f | None \<Rightarrow> (\<lambda>q1 q2. ToNumber (compare q1 q2)))
              (array_get (this_set st) st)"
  using assms by (auto simp: monotonic_eq valid_def array_get_def nth_append)

theorem monotonic_frame_witness:
  "valid reset \<and>
   this_set (fst (monotonic insertion_sort_gt0 None reset)) = this_set reset \<and>
   array_get (this_set reset) (fst (monotonic insertion_sort_gt0 None reset)) = reset_elements \<and>
   snd (monotonic insertion_sort_gt0 None reset) = 1 \<and>
   array_get 1 (fst (monotonic insertion_sort_gt0 None reset)) =
     [new_Quantum 2 12342, new_Quantum 123 321, new_Quantum 2322 23421,
      new_Quantum 2342933 82888329, new_Quantum 3232123423 238232482738]"
  using monotonic_frame [OF valid_reset prod.collapse [symmetric], of insertion_sort_gt0 None]
  by (auto simp: valid_reset reset_fields insertion_sort_gt0_reset)

text \<open>
  The older \<open>monotonic\<close> of \<open>quantum.js\<close> sorts \<open>this._set\<close> itself and returns that
  same reference.
\<close>

lemma monotonic_legacy_sorts_backing:
  "snd (monotonic_legacy insertion_sort_gt0 None reset) = this_set reset \<and>
   array_get (this_set reset) (fst (monotonic_legacy insertion_sort_gt0 None reset)) =
     [new_Quantum 2 12342, new_Quantum 123 321, new_Quantum 2322 23421,
      new_Quantum 2342933 82888329, new_Quantum 3232123423 238232482738] \<and>
   array_get (this_set reset) (fst (monotonic_legacy insertion_sort_gt0 None reset)) \<noteq>
     array_get (this_set reset) reset"
  by (simp add: monotonic_legacy_def array_sort_def reset_eval array_get_def insertion_sort_gt0_reset)
     (simp add: reset_elements_def new_Quantum_eq)

section \<open>The disjoint cover\<close>

text \<open>
  C10. \<open>disjoint\<close> leaves the backing sequence as it is, with either value of the flag:
  for every host sort that rearranges, in a valid state with a non-empty backing sequence,
  \<open>this._set\<close> is the same reference after the call and reads the same Quanta in the
  same order, every array of the store before the call is unchanged, and the cover
  returned is a new array.
\<close>

theorem disjoint_frame:
  assumes "valid st" and "array_get (this_set st) st \<noteq> []" and "permuting hs"
    and "disjoint hs mono_flag st = (st', c)"
  shows "this_set st' = this_set st \<and>
         array_get (this_set st') st' = array_get (this_set st) st \<and>
         take (length (arrays st)) (arrays st') = arrays st \<and>
         (\<exists>r. c = Cover r \<and> length (arrays st) \<le> r \<and> r < length (arrays st'))"
proof (cases mono_flag)
  case True
  obtain q0 rest where "array_get (this_set st) st = q0 # rest"
    using assms(2) by (cases "array_get (this_set st) st") auto
  from disjoint_True_eq [OF assms(1) this, of hs] assms(1,4) True show ?thesis
    by (auto simp: valid_def array_get_def nth_append)
next
  case False
  let ?ys = "hs (\<lambda>a b. ToNumber (compare a b)) (array_get (this_set st) st)"
  have "mset ?ys = mset (array_get (this_set st) st)"
    using assms(3) by (simp add: permuting_def)
  then have "?ys \<noteq> []" using assms(2) by (metis mset_zero_iff)
  then obtain q0 rest where "?ys = q0 # rest"
    by (cases ?ys) auto
  from disjoint_False_eq [of hs st q0 rest, OF this] assms(1,4) False show ?thesis
    by (auto simp: valid_def array_get_def nth_append)
qed

theorem disjoint_frame_witness:
  "valid reset \<and> array_get (this_set reset) reset \<noteq> [] \<and> permuting insertion_sort_gt0 \<and>
   this_set (fst (disjoint insertion_sort_gt0 False reset)) = this_set reset \<and>
   array_get (this_set reset) (fst (disjoint insertion_sort_gt0 False reset)) = reset_elements \<and>
   take 1 (arrays (fst (disjoint insertion_sort_gt0 False reset))) = arrays reset \<and>
   (\<exists>r. snd (disjoint insertion_sort_gt0 False reset) = Cover r \<and> 1 \<le> r \<and>
        r < length (arrays (fst (disjoint insertion_sort_gt0 False reset))))"
proof -
  have ne: "array_get (this_set reset) reset \<noteq> []"
    by (simp add: reset_fields reset_elements_not_empty)
  from disjoint_frame [OF valid_reset ne permuting_gt0 prod.collapse [symmetric], of False]
  show ?thesis
    using valid_reset ne permuting_gt0 by (auto simp: reset_fields)
qed





text \<open>
  C6, as stated, fails where two Quanta of an ordered, already disjoint sequence have the
  same start (both then have \<open>start > stop\<close>): \<open>compare\<close> is true on equal starts, and a
  host that reorders on a positive result swaps the two before the sweep. With the
  backing sequence \<open>[5, 3], [5, 2]\<close>, \<open>disjoint()\<close> returns \<open>[5, 2], [5, 3]\<close>.
\<close>

theorem disjoint_default_swaps_equal_starts:
  "ordered_by_start [new_Quantum 5 3, new_Quantum 5 2] \<and>
   adjacent_disjoint [new_Quantum 5 3, new_Quantum 5 2] \<and>
   disjoint insertion_sort_gt0 False (QuantumSet (Some [new_Quantum 5 3, new_Quantum 5 2]) []) =
     (\<lparr>arrays = [[new_Quantum 5 3, new_Quantum 5 2],
                 [new_Quantum 5 2, new_Quantum 5 3],
                 [new_Quantum 5 2, new_Quantum 5 3]],
       this_set = 0\<rparr>, Cover 2) \<and>
   [new_Quantum 5 2, new_Quantum 5 3] \<noteq> [new_Quantum 5 3, new_Quantum 5 2]"
proof -
  let ?xs = "[new_Quantum 5 3, new_Quantum 5 2]"
  have st: "QuantumSet (Some ?xs) [] = \<lparr>arrays = [?xs], this_set = 0\<rparr>"
    by (simp add: QuantumSet_def push_def array_push_def)
  have srt: "insertion_sort_gt0 (\<lambda>a b. ToNumber (compare a b)) ?xs =
             [new_Quantum 5 2, new_Quantum 5 3]"
    by (simp add: insertion_sort_gt0_def ToNumber_def compare_def)
  have sw: "sweep (new_Quantum 5 2) [new_Quantum 5 3] = [new_Quantum 5 2, new_Quantum 5 3]"
    by (simp add: sweep_Cons intersects_def)
  have "disjoint insertion_sort_gt0 False \<lparr>arrays = [?xs], this_set = 0\<rparr> =
        (\<lparr>arrays = [?xs, [new_Quantum 5 2, new_Quantum 5 3], [new_Quantum 5 2, new_Quantum 5 3]],
          this_set = 0\<rparr>, Cover 2)"
    by (subst disjoint_False_eq [where ?q0.0 = "new_Quantum 5 2" and rest = "[new_Quantum 5 3]"])
       (simp_all add: array_get_def srt sw)
  then show ?thesis
    by (simp add: st) (simp add: intersects_def new_Quantum_eq)
qed

text \<open>
  C6, amended. For every non-empty collection whose elements are ordered non-decreasing
  by start and of which no two adjacent elements intersect, \<open>disjoint\<close> returns a
  sequence equal element for element, in the same order, to the collection's elements
  when it is called with the flag true, and when it is called with the flag false on a
  host whose sort leaves that sequence in its order.
\<close>

theorem disjoint_idempotent:
  assumes "valid st" and "array_get (this_set st) st \<noteq> []"
    and "ordered_by_start (array_get (this_set st) st)"
    and "adjacent_disjoint (array_get (this_set st) st)"
    and "mono_flag \<or>
         hs (\<lambda>a b. ToNumber (compare a b)) (array_get (this_set st) st) = array_get (this_set st) st"
    and "disjoint hs mono_flag st = (st', c)"
  shows "\<exists>r. c = Cover r \<and> array_get r st' = array_get (this_set st) st"
proof -
  obtain q0 rest where xs: "array_get (this_set st) st = q0 # rest"
    using assms(2) by (cases "array_get (this_set st) st") auto
  have sw: "sweep q0 rest = q0 # rest"
    using assms(4) by (simp add: xs sweep_adjacent_disjoint)
  show ?thesis
  proof (cases mono_flag)
    case True
    with disjoint_True_eq [OF assms(1) xs, of hs] assms(6) show ?thesis
      by (auto simp: array_get_def sw xs [unfolded array_get_def])
  next
    case False
    then have "hs (\<lambda>a b. ToNumber (compare a b)) (array_get (this_set st) st) = q0 # rest"
      using assms(5) xs by simp
    from disjoint_False_eq [of hs st q0 rest, OF this] assms(6) False show ?thesis
      by (auto simp: array_get_def nth_append sw xs [unfolded array_get_def])
  qed
qed

theorem disjoint_idempotent_witness:
  "valid (QuantumSet (Some [new_Quantum 1 2, new_Quantum 4 6]) []) \<and>
   ordered_by_start [new_Quantum 1 2, new_Quantum 4 6] \<and>
   adjacent_disjoint [new_Quantum 1 2, new_Quantum 4 6] \<and>
   insertion_sort_gt0 (\<lambda>a b. ToNumber (compare a b)) [new_Quantum 1 2, new_Quantum 4 6] =
     [new_Quantum 1 2, new_Quantum 4 6] \<and>
   (\<exists>r. snd (disjoint insertion_sort_gt0 False
                (QuantumSet (Some [new_Quantum 1 2, new_Quantum 4 6]) [])) = Cover r \<and>
        array_get r (fst (disjoint insertion_sort_gt0 False
                (QuantumSet (Some [new_Quantum 1 2, new_Quantum 4 6]) []))) =
          [new_Quantum 1 2, new_Quantum 4 6])"
proof -
  let ?xs = "[new_Quantum 1 2, new_Quantum 4 6]"
  let ?st = "QuantumSet (Some ?xs) []"
  have st: "?st = \<lparr>arrays = [?xs], this_set = 0\<rparr>"
    by (simp add: QuantumSet_def push_def array_push_def)
  have v: "valid ?st" and g: "array_get (this_set ?st) ?st = ?xs"
    by (simp_all add: st valid_def array_get_def)
  have ne: "array_get (this_set ?st) ?st \<noteq> []" by (simp add: g)
  have o: "ordered_by_start (array_get (this_set ?st) ?st)" by (simp add: g)
  have d: "adjacent_disjoint (array_get (this_set ?st) ?st)"
    by (simp add: g intersects_def)
  have srt: "insertion_sort_gt0 (\<lambda>a b. ToNumber (compare a b)) ?xs = ?xs"
    by (simp add: insertion_sort_gt0_def ToNumber_def compare_def)
  then have h: "False \<or>
      insertion_sort_gt0 (\<lambda>a b. ToNumber (compare a b)) (array_get (this_set ?st) ?st) =
        array_get (this_set ?st) ?st"
    by (simp add: g)
  from disjoint_idempotent [where hs = insertion_sort_gt0 and mono_flag = False,
      OF v ne o d h prod.collapse [symmetric]]
  show ?thesis
    using v o d srt by (simp add: g)
qed

text \<open>
  On Quanta with \<open>start \<le> stop\<close> an ordered sequence without intersecting neighbours
  has strictly increasing starts, and both hosts leave it in its order: there
  \<open>disjoint()\<close> returns the elements as they are also with the flag false.
\<close>

lemma foldl_insert_gt0_increasing:
  "sorted_wrt (\<lambda>a b. start a < start b) xs \<Longrightarrow>
   \<forall>a\<in>set acc. \<forall>x\<in>set xs. start a < start x \<Longrightarrow>
   foldl (\<lambda>below element. insert_gt0 (\<lambda>a b. ToNumber (compare a b)) element below) acc xs =
     rev xs @ acc"
proof (induction xs arbitrary: acc)
  case Nil
  then show ?case by simp
next
  case (Cons x xs)
  have ins: "insert_gt0 (\<lambda>a b. ToNumber (compare a b)) x acc = x # acc"
    using Cons.prems(2) by (cases acc) (auto simp: ToNumber_def compare_def)
  have "\<forall>a\<in>set (x # acc). \<forall>y\<in>set xs. start a < start y"
    using Cons.prems by auto
  with Cons.IH [of "x # acc"] Cons.prems(1) show ?case
    by (simp add: ins)
qed

lemma insertion_sort_gt0_increasing:
  "sorted_wrt (\<lambda>a b. start a < start b) xs \<Longrightarrow>
   insertion_sort_gt0 (\<lambda>a b. ToNumber (compare a b)) xs = xs"
  by (simp add: insertion_sort_gt0_def foldl_insert_gt0_increasing)

lemma ordered_disjoint_increasing:
  assumes "ordered_by_start xs" "adjacent_disjoint xs" "\<forall>q\<in>set xs. well_formed q"
  shows "sorted_wrt (\<lambda>a b. start a < start b) xs"
proof -
  have "successively (\<lambda>a b. start a < start b) xs"
    using assms
  proof (induction xs rule: induct_list012)
    case (3 a b xs)
    then show ?case
      by (auto simp: intersects_def well_formed_def Let_def)
  qed simp_all
  moreover have "transp (\<lambda>a b :: quantum. start a < start b)"
    by (auto intro: transpI)
  ultimately show ?thesis
    by (simp add: successively_conv_sorted_wrt)
qed

lemma disjoint_idempotent_on_both_hosts:
  assumes "valid st" and "array_get (this_set st) st \<noteq> []"
    and "ordered_by_start (array_get (this_set st) st)"
    and "adjacent_disjoint (array_get (this_set st) st)"
    and "\<forall>q\<in>set (array_get (this_set st) st). well_formed q"
    and "hs = insertion_sort_gt0 \<or> hs = insertion_sort_lt0"
  shows "\<exists>st' r. disjoint hs False st = (st', Cover r) \<and>
           array_get r st' = array_get (this_set st) st"
proof -
  obtain q0 rest where xs: "array_get (this_set st) st = q0 # rest"
    using assms(2) by (cases "array_get (this_set st) st") auto
  have "hs (\<lambda>a b. ToNumber (compare a b)) (array_get (this_set st) st) = array_get (this_set st) st"
    using assms(6) insertion_sort_lt0_compare
      insertion_sort_gt0_increasing [OF ordered_disjoint_increasing [OF assms(3,4,5)]]
    by auto
  then have "hs (\<lambda>a b. ToNumber (compare a b)) (array_get (this_set st) st) = q0 # rest"
    by (simp add: xs)
  from disjoint_False_eq [of hs st q0 rest, OF this] assms(4) show ?thesis
    by (simp add: array_get_def nth_append sweep_adjacent_disjoint xs [unfolded array_get_def])
qed

section \<open>The end-to-end scenario\<close>

text \<open>
  C3. The claim: for the collection of the self-test, \<open>disjoint()\<close> returns exactly
  \<open>[2, 23421], [2342933, 82888329], [3232123423, 238232482738]\<close>. \<open>disjoint()\<close> sorts
  through \<open>monotonic()\<close> first; on the host that reorders on a negative comparator
  result only, the sweep runs over the elements in the order they were inserted and
  returns all five of them.
\<close>

theorem disjoint_reset_on_lt0_host:
  "disjoint insertion_sort_lt0 False reset =
     (\<lparr>arrays = [reset_elements, reset_elements, reset_elements], this_set = 0\<rparr>, Cover 2) \<and>
   length (array_get 2 (fst (disjoint insertion_sort_lt0 False reset))) = 5"
proof -
  have "insertion_sort_lt0 (\<lambda>a b. ToNumber (compare a b)) (array_get (this_set reset) reset) =
        new_Quantum 123 321 # tl reset_elements"
    by (simp add: insertion_sort_lt0_compare reset_fields) (simp add: reset_elements_def)
  from disjoint_False_eq [of insertion_sort_lt0 reset, OF this]
  have "disjoint insertion_sort_lt0 False reset =
     (\<lparr>arrays = [reset_elements, reset_elements, reset_elements], this_set = 0\<rparr>, Cover 2)"
    by (simp add: sweep_reset_unsorted reset_eval) (simp add: reset_elements_def)
  then show ?thesis
    by (simp add: array_get_def) (simp add: reset_elements_def)
qed

text \<open>
  On the host that reorders on a positive result the sort orders the five elements, and
  \<open>disjoint()\<close> returns the three elements of the claim; once that result is installed
  with \<open>set\<close>, \<open>millis()\<close> is the sum of the claim.
\<close>

lemma disjoint_reset_on_gt0_host:
  "disjoint insertion_sort_gt0 False reset =
     (\<lparr>arrays = [reset_elements,
                 [new_Quantum 2 12342, new_Quantum 123 321, new_Quantum 2322 23421,
                  new_Quantum 2342933 82888329, new_Quantum 3232123423 238232482738],
                 [new_Quantum 2 23421, new_Quantum 2342933 82888329,
                  new_Quantum 3232123423 238232482738]],
       this_set = 0\<rparr>, Cover 2)"
proof -
  have "insertion_sort_gt0 (\<lambda>a b. ToNumber (compare a b)) (array_get (this_set reset) reset) =
        new_Quantum 2 12342 # [new_Quantum 123 321, new_Quantum 2322 23421,
          new_Quantum 2342933 82888329, new_Quantum 3232123423 238232482738]"
    by (simp add: insertion_sort_gt0_reset reset_fields)
  from disjoint_False_eq [of insertion_sort_gt0 reset, OF this]
  show ?thesis
    by (simp add: sweep_reset_sorted reset_eval)
qed

lemma millis_after_disjoint_on_gt0_host:
  "millis_set (fst (set_op (Some 2) (fst (disjoint insertion_sort_gt0 False reset)))) =
     (23421 - 2) + (82888329 - 2342933) + (238232482738 - 3232123423)"
  by (simp add: disjoint_reset_on_gt0_host set_op_def millis_set_def array_get_def millis_def)

section \<open>The constructor's defaults\<close>

text \<open>
  C9, as stated, fails for a bound that is not a number and is truthy: the constructor
  keeps the string \<open>"abc"\<close> as the start, it does not put 0 in its place.
\<close>

theorem Quantum_keeps_truthy_string:
  "raw_start (Quantum (String ''abc'') (Number 5)) = String ''abc'' \<and>
   raw_start (Quantum (String ''abc'') (Number 5)) \<noteq> Number 0 \<and>
   raw_stop (Quantum (String ''abc'') (Number 5)) = Number 5"
  by (simp add: Quantum_def js_or_def)

text \<open>
  C9, amended. Constructing a Quantum does not fail, whatever the arguments. A bound that
  is omitted or falsy (\<open>undefined\<close>, \<open>null\<close>, \<open>false\<close>, \<open>0\<close>, \<open>NaN\<close>, the empty
  string) is replaced by 0; every other argument, a number that is not zero as well as
  \<open>true\<close>, a non-empty string or an object, is stored as it is given.
\<close>

theorem Quantum_defaults:
  "raw_start (Quantum a b) =
     (if a \<in> {Undefined, Null, Boolean False, Number 0, NaN, String ''''} then Number 0 else a) \<and>
   raw_stop (Quantum a b) =
     (if b \<in> {Undefined, Null, Boolean False, Number 0, NaN, String ''''} then Number 0 else b)"
  by (cases a; cases b) (auto simp: Quantum_def js_or_def)

end
